theory Spec2Isabelle
  imports Main "HOL-Library.Word"
begin

section \<open>JavaScript strings\<close>

text \<open>
  A JavaScript string is a sequence of 16-bit UTF-16 code units; \<open>length\<close>, \<open>slice\<close>
  and every selection offset of \<open>TestScreen.tsx\<close> count code units. Offsets are the
  integers a \<open>number\<close> holds, so they are modelled as \<open>int\<close> and may be negative or
  larger than the string.
\<close>

type_synonym code_unit = "16 word"
type_synonym js_string = "code_unit list"

text \<open>
  \<open>String.prototype.slice(start, end)\<close>: a negative offset counts back from the end,
  every offset saturates at \<open>0\<close> and at the length, a missing \<open>end\<close> (\<open>None\<close>) is
  the length, and the span is empty when \<open>to\<close> lies before \<open>from\<close>. It never throws.
\<close>

definition string_slice :: "js_string \<Rightarrow> int \<Rightarrow> int option \<Rightarrow> js_string" where
  "string_slice s start stop =
     (let len = int (length s);
          from_k = (if start < 0 then max (len + start) 0 else min start len);
          to_k = (case stop of
                    None \<Rightarrow> len
                  | Some e \<Rightarrow> (if e < 0 then max (len + e) 0 else min e len));
          span = max (to_k - from_k) 0
      in take (nat span) (drop (nat from_k) s))"

text \<open>Leading (high) and trailing (low) surrogate code units.\<close>

definition is_leading_surrogate :: "code_unit \<Rightarrow> bool" where
  "is_leading_surrogate u = (0xD800 \<le> unat u \<and> unat u \<le> 0xDBFF)"

definition is_trailing_surrogate :: "code_unit \<Rightarrow> bool" where
  "is_trailing_surrogate u = (0xDC00 \<le> unat u \<and> unat u \<le> 0xDFFF)"

text \<open>
  \<open>Array.from(str)\<close> runs the string iterator: it yields one string per code point, a
  leading surrogate directly followed by a trailing one as a two-unit string and every
  other code unit (a lone surrogate too) as a one-unit string.
\<close>

fun array_from :: "js_string \<Rightarrow> js_string list" where
  "array_from [] = []"
| "array_from [u] = [[u]]"
| "array_from (u # v # rest) =
     (if is_leading_surrogate u \<and> is_trailing_surrogate v
      then [u, v] # array_from rest
      else [u] # array_from (v # rest))"

text \<open>\<open>Array.from(arr)\<close> on an array is a shallow copy.\<close>

definition array_from_array :: "'a list \<Rightarrow> 'a list" where
  "array_from_array xs = xs"

text \<open>\<open>arr.pop()\<close> drops the last element; on an empty array it changes nothing.\<close>

definition pop :: "'a list \<Rightarrow> 'a list" where
  "pop xs = butlast xs"

text \<open>\<open>arr.join("")\<close> on an array of strings.\<close>

definition join_empty :: "js_string list \<Rightarrow> js_string" where
  "join_empty xs = concat xs"

text \<open>
  \<open>ch.codePointAt(0)\<close>: \<open>undefined\<close> (\<open>None\<close>) on the empty string, the combined
  code point of a surrogate pair at the front, the first code unit otherwise.
\<close>

fun codePointAt0 :: "js_string \<Rightarrow> nat option" where
  "codePointAt0 [] = None"
| "codePointAt0 [u] = Some (unat u)"
| "codePointAt0 (u # v # rest) =
     (if is_leading_surrogate u \<and> is_trailing_surrogate v
      then Some ((unat u - 0xD800) * 0x400 + (unat v - 0xDC00) + 0x10000)
      else Some (unat u))"

text \<open>The nullish coalescing operator \<open>x ?? d\<close>, with \<open>undefined\<close> as \<open>None\<close>.\<close>

definition nullish :: "'a option \<Rightarrow> 'a \<Rightarrow> 'a" where
  "nullish x d = (case x of None \<Rightarrow> d | Some v \<Rightarrow> v)"

section \<open>The text buffer editor of TestScreen.tsx\<close>

definition insertAt :: "js_string \<Rightarrow> js_string \<Rightarrow> int \<Rightarrow> int \<Rightarrow> js_string" where
  "insertAt input ins start stop =
     string_slice input 0 (Some start) @ ins @ string_slice input stop None"

record delete_result =
  nextText :: js_string
  nextCursor :: int

definition deleteOneGrapheme :: "js_string \<Rightarrow> int \<Rightarrow> int \<Rightarrow> delete_result" where
  "deleteOneGrapheme input cursorStart cursorEnd =
     (if cursorStart \<noteq> cursorEnd then
        \<lparr> nextText = string_slice input 0 (Some cursorStart) @ string_slice input cursorEnd None,
          nextCursor = cursorStart \<rparr>
      else if cursorStart \<le> 0 then \<lparr> nextText = input, nextCursor = cursorStart \<rparr>
      else
        (let left = string_slice input 0 (Some cursorStart);
             right = string_slice input cursorStart None;
             units = pop (array_from left)
         in \<lparr> nextText = join_empty units @ right,
              nextCursor = int (length (join_empty (array_from_array units))) \<rparr>))"

section \<open>The input filter\<close>

definition keep_char :: "js_string \<Rightarrow> bool" where
  "keep_char ch =
     (let code = nullish (codePointAt0 ch) 0;
          isAsciiLetterOrDigit =
            ((code \<ge> 48 \<and> code \<le> 57) \<or> (code \<ge> 65 \<and> code \<le> 90) \<or>
             (code \<ge> 97 \<and> code \<le> 122));
          isHangul =
            ((code \<ge> 0xAC00 \<and> code \<le> 0xD7A3) \<or> (code \<ge> 0x1100 \<and> code \<le> 0x11FF))
      in \<not> (isAsciiLetterOrDigit \<or> isHangul))"

definition filterNonEmoji :: "js_string \<Rightarrow> js_string" where
  "filterNonEmoji text_in = join_empty (filter keep_char (array_from text_in))"

section \<open>The screen's state and its two edit handlers\<close>

record screen_state =
  text_value :: js_string
  selection_start :: int
  selection_end :: int

definition handleInsert :: "screen_state \<Rightarrow> js_string \<Rightarrow> screen_state" where
  "handleInsert st emoji =
     (let next_value = insertAt (text_value st) emoji (selection_start st) (selection_end st);
          next_cursor = selection_start st + int (length (array_from emoji))
      in st \<lparr> text_value := next_value,
              selection_start := next_cursor, selection_end := next_cursor \<rparr>)"

definition handleBackspace :: "screen_state \<Rightarrow> screen_state" where
  "handleBackspace st =
     (let r = deleteOneGrapheme (text_value st) (selection_start st) (selection_end st)
      in st \<lparr> text_value := nextText r,
              selection_start := nextCursor r, selection_end := nextCursor r \<rparr>)"

section \<open>The specification's vocabulary\<close>

text \<open>
  The specification speaks of the codepoint decomposition of a text and of its
  reassembly. \<open>spec_codepoints\<close> reads a string as the list of its code points (numbers),
  \<open>spec_encode\<close> writes one code point back as UTF-16 and \<open>spec_reassemble\<close> a list of
  them. These follow the specification's words, to be compared with what the code
  computes through \<open>Array.from\<close> and \<open>join\<close>.
\<close>

fun spec_codepoints :: "js_string \<Rightarrow> nat list" where
  "spec_codepoints [] = []"
| "spec_codepoints [u] = [unat u]"
| "spec_codepoints (u # v # rest) =
     (if is_leading_surrogate u \<and> is_trailing_surrogate v
      then (0x10000 + (unat u - 0xD800) * 0x400 + (unat v - 0xDC00)) # spec_codepoints rest
      else unat u # spec_codepoints (v # rest))"

definition spec_encode :: "nat \<Rightarrow> js_string" where
  "spec_encode cp =
     (if cp < 0x10000 then [of_nat cp]
      else [of_nat (0xD800 + (cp - 0x10000) div 0x400),
            of_nat (0xDC00 + (cp - 0x10000) mod 0x400)])"

definition spec_reassemble :: "nat list \<Rightarrow> js_string" where
  "spec_reassemble cps = concat (map spec_encode cps)"

text \<open>
  The code points the specification's filter strips: ASCII digits, ASCII letters, the
  Hangul syllable block U+AC00 to U+D7A3 and the Hangul Jamo block U+1100 to U+11FF.
\<close>

definition spec_excluded :: "nat \<Rightarrow> bool" where
  "spec_excluded cp =
     ((0x30 \<le> cp \<and> cp \<le> 0x39) \<or> (0x41 \<le> cp \<and> cp \<le> 0x5A) \<or> (0x61 \<le> cp \<and> cp \<le> 0x7A) \<or>
      (0xAC00 \<le> cp \<and> cp \<le> 0xD7A3) \<or> (0x1100 \<le> cp \<and> cp \<le> 0x11FF))"

text \<open>Clamping a selection offset to the bounds of a buffer of length \<open>n\<close>.\<close>

definition spec_clamp :: "nat \<Rightarrow> int \<Rightarrow> int" where
  "spec_clamp n k = max 0 (min (int n) k)"

text \<open>
  The caret \<open>c\<close> stands directly before a trailing surrogate of the text. In a text
  without lone surrogates this is a caret inside a surrogate pair.
\<close>

definition caret_before_trailing :: "js_string \<Rightarrow> int \<Rightarrow> bool" where
  "caret_before_trailing s c =
     (case drop (nat c) s of [] \<Rightarrow> False | v # _ \<Rightarrow> is_trailing_surrogate v)"

section \<open>Slices inside and outside the buffer\<close>

lemmas eval_defs = is_leading_surrogate_def is_trailing_surrogate_def nullish_def
  join_empty_def pop_def array_from_array_def string_slice_def insertAt_def
  deleteOneGrapheme_def handleInsert_def handleBackspace_def Let_def spec_clamp_def
  filterNonEmoji_def keep_char_def spec_reassemble_def spec_encode_def spec_excluded_def

lemma slice_prefix:
  "0 \<le> k \<Longrightarrow> string_slice s 0 (Some k) = take (nat k) s"
  by (auto simp: string_slice_def Let_def min_def max_def)

lemma slice_suffix:
  "0 \<le> k \<Longrightarrow> string_slice s k None = drop (nat k) s"
  by (auto simp: string_slice_def Let_def min_def max_def)

lemma slice_prefix_clamp:
  "0 \<le> k \<Longrightarrow> take (nat (spec_clamp (length s) k)) s = take (nat k) s"
  by (auto simp: spec_clamp_def min_def max_def)

lemma slice_suffix_clamp:
  "0 \<le> k \<Longrightarrow> drop (nat (spec_clamp (length s) k)) s = drop (nat k) s"
  by (auto simp: spec_clamp_def min_def max_def)

lemma clamp_nonneg: "0 \<le> spec_clamp n k"
  by (simp add: spec_clamp_def)

lemma clamp_pos: "0 < k \<Longrightarrow> 0 < n \<Longrightarrow> 0 < spec_clamp n k"
  by (simp add: spec_clamp_def)

section \<open>The string iterator\<close>

lemma concat_array_from: "concat (array_from xs) = xs"
  by (induction xs rule: array_from.induct) auto

lemma array_from_shape:
  "ch \<in> set (array_from xs) \<Longrightarrow>
     (\<exists>u. ch = [u]) \<or> (\<exists>u v. ch = [u, v] \<and> is_leading_surrogate u \<and> is_trailing_surrogate v)"
  by (induction xs rule: array_from.induct) (auto split: if_splits)

lemma array_from_Nil_iff: "array_from xs = [] \<longleftrightarrow> xs = []"
  by (induction xs rule: array_from.induct) auto

lemma length_array_from: "length (array_from xs) \<le> length xs"
  by (induction xs rule: array_from.induct) auto

lemma concat_butlast_array_from:
  "xs \<noteq> [] \<Longrightarrow> concat (butlast (array_from xs)) @ last (array_from xs) = xs"
proof -
  assume "xs \<noteq> []"
  then have ne: "array_from xs \<noteq> []" by (simp add: array_from_Nil_iff)
  have "concat (butlast (array_from xs) @ [last (array_from xs)]) = xs"
    using ne by (simp add: concat_array_from)
  then show ?thesis by simp
qed

text \<open>
  Joining all but the last element of the iterator's output and iterating again gives
  those elements back: a lone leading surrogate never meets a trailing one this way.
\<close>

lemma array_from_butlast:
  "array_from (concat (butlast (array_from xs))) = butlast (array_from xs)"
proof (induction xs rule: array_from.induct)
  case 1
  then show ?case by simp
next
  case (2 u)
  then show ?case by simp
next
  case (3 u v rest)
  show ?case
  proof (cases "is_leading_surrogate u \<and> is_trailing_surrogate v")
    case True
    with 3 show ?thesis by (simp add: array_from_Nil_iff)
  next
    case False
    let ?ys = "concat (butlast (array_from (v # rest)))"
    from False 3 have IH: "array_from ?ys = butlast (array_from (v # rest))" by simp
    have pre: "?ys @ last (array_from (v # rest)) = v # rest"
      by (rule concat_butlast_array_from) simp
    have "array_from (u # ?ys) = [u] # array_from ?ys"
    proof (cases ?ys)
      case Nil
      then have "array_from (u # ?ys) = [[u]]" and "array_from ?ys = []"
        by (simp_all only: array_from.simps)
      then show ?thesis by (simp only:)
    next
      case (Cons w r)
      with pre have "w = v" by simp
      with Cons False show ?thesis by simp
    qed
    with IH have step: "array_from (u # ?ys) = [u] # butlast (array_from (v # rest))"
      by (simp only:)
    from False have af: "array_from (u # v # rest) = [u] # array_from (v # rest)"
      by auto
    have ne: "array_from (v # rest) \<noteq> []" by (simp add: array_from_Nil_iff)
    from ne have "butlast (array_from (u # v # rest)) = [u] # butlast (array_from (v # rest))"
      by (simp only: af butlast.simps if_False)
    with step show ?thesis by simp
  qed
qed

text \<open>
  Chunks that are surrogate pairs or single units other than a leading surrogate are
  what the iterator finds again in their concatenation.
\<close>

lemma array_from_concat_chunks:
  assumes "\<forall>ch\<in>set chunks.
            (\<exists>u v. ch = [u, v] \<and> is_leading_surrogate u \<and> is_trailing_surrogate v) \<or>
            (\<exists>u. ch = [u] \<and> \<not> is_leading_surrogate u)"
  shows "array_from (concat chunks) = chunks"
  using assms
proof (induction chunks)
  case Nil
  then show ?case by simp
next
  case (Cons ch chunks)
  then have IH: "array_from (concat chunks) = chunks" by simp
  from Cons.prems consider u v where "ch = [u, v]" "is_leading_surrogate u" "is_trailing_surrogate v"
    | u where "ch = [u]" "\<not> is_leading_surrogate u"
    by auto
  then show ?case
  proof cases
    case 1
    with IH show ?thesis by simp
  next
    case 2
    show ?thesis
    proof (cases "concat chunks")
      case Nil
      with IH have "chunks = []" by simp
      with 2 show ?thesis by simp
    next
      case (Cons w r)
      with 2 IH show ?thesis by simp
    qed
  qed
qed

section \<open>The iterator against the specification's codepoints\<close>

lemma unat_code_unit_bound: "unat (u :: code_unit) < 0x10000"
  using unsigned_less [of u, where ?'a = nat] by simp

lemma encode_bmp: "spec_encode (unat (u :: code_unit)) = [u]"
  using unat_code_unit_bound [of u] by (simp add: spec_encode_def)

lemma encode_pair:
  assumes "is_leading_surrogate u" and "is_trailing_surrogate v"
  shows "spec_encode (0x10000 + (unat u - 0xD800) * 0x400 + (unat v - 0xDC00)) = [u, v]"
proof -
  define a where "a = unat u - 0xD800"
  define b where "b = unat v - 0xDC00"
  from assms have ua: "unat u = 0xD800 + a" and vb: "unat v = 0xDC00 + b" and b: "b < 0x400"
    by (auto simp: a_def b_def is_leading_surrogate_def is_trailing_surrogate_def)
  have "(a * 0x400 + b) div 0x400 = a" "(a * 0x400 + b) mod 0x400 = b"
    using b by simp_all
  then have "spec_encode (0x10000 + a * 0x400 + b) = [of_nat (unat u), of_nat (unat v)]"
    by (simp add: spec_encode_def ua vb add.assoc)
  then show ?thesis by (simp add: a_def b_def)
qed

lemma map_encode_codepoints: "map spec_encode (spec_codepoints xs) = array_from xs"
  by (induction xs rule: array_from.induct) (simp_all add: encode_bmp encode_pair)

lemma codepoints_array_from:
  "spec_codepoints xs = map (\<lambda>ch. nullish (codePointAt0 ch) 0) (array_from xs)"
  by (induction xs rule: array_from.induct) (simp_all add: nullish_def)

lemma length_codepoints: "length (spec_codepoints xs) = length (array_from xs)"
  by (simp add: codepoints_array_from)

text \<open>
  Codepoints are read independently on both sides of a cut, unless the right side
  begins with a trailing surrogate.
\<close>

lemma codepoints_append:
  assumes "case ys of [] \<Rightarrow> True | v # _ \<Rightarrow> \<not> is_trailing_surrogate v"
  shows "spec_codepoints (xs @ ys) = spec_codepoints xs @ spec_codepoints ys"
  using assms
proof (induction xs rule: spec_codepoints.induct)
  case 1
  then show ?case by simp
next
  case (2 u)
  then show ?case by (cases ys) simp_all
next
  case (3 u v rest)
  then show ?case by simp
qed

lemma reassemble_butlast:
  "spec_reassemble (butlast (spec_codepoints xs)) = concat (butlast (array_from xs))"
proof -
  have "map spec_encode (butlast (spec_codepoints xs)) = butlast (array_from xs)"
    by (simp only: map_butlast map_encode_codepoints)
  then show ?thesis by (simp only: spec_reassemble_def)
qed

lemma codepoints_butlast:
  "spec_codepoints (concat (butlast (array_from xs))) = butlast (spec_codepoints xs)"
  by (simp add: codepoints_array_from [of "concat (butlast (array_from xs))"]
      array_from_butlast map_butlast codepoints_array_from [of xs])

lemma encode_code_point:
  "ch \<in> set (array_from xs) \<Longrightarrow> spec_encode (nullish (codePointAt0 ch) 0) = ch"
proof -
  assume "ch \<in> set (array_from xs)"
  then consider u where "ch = [u]"
    | u v where "ch = [u, v]" "is_leading_surrogate u" "is_trailing_surrogate v"
    using array_from_shape by blast
  then show ?thesis
  proof cases
    case 1
    then show ?thesis by (simp add: nullish_def encode_bmp)
  next
    case 2
    then show ?thesis
      using encode_pair [of u v] by (simp add: nullish_def add.commute add.left_commute)
  qed
qed

text \<open>A fragment with a code point beyond the BMP has fewer code points than code units.\<close>

lemma astral_shorter:
  "\<exists>cp\<in>set (spec_codepoints f). 0x10000 \<le> cp \<Longrightarrow> length (array_from f) < length f"
proof (induction f rule: array_from.induct)
  case 1
  then show ?case by simp
next
  case (2 u)
  then show ?case using unat_code_unit_bound [of u] by simp
next
  case (3 u v rest)
  show ?case
  proof (cases "is_leading_surrogate u \<and> is_trailing_surrogate v")
    case True
    then show ?thesis using length_array_from [of rest] by simp
  next
    case False
    with 3 show ?thesis using unat_code_unit_bound [of u] by auto
  qed
qed

section \<open>The filter's predicate\<close>

lemma keep_char_excluded: "keep_char ch = (\<not> spec_excluded (nullish (codePointAt0 ch) 0))"
  by (simp add: keep_char_def spec_excluded_def Let_def)

lemma surrogate_not_excluded:
  "is_leading_surrogate u \<or> is_trailing_surrogate u \<Longrightarrow> \<not> spec_excluded (unat u)"
  by (auto simp: is_leading_surrogate_def is_trailing_surrogate_def spec_excluded_def)

lemma filter_units_allowed:
  "u \<in> set (filterNonEmoji input) \<Longrightarrow> \<not> spec_excluded (unat u)"
proof -
  assume "u \<in> set (filterNonEmoji input)"
  then obtain ch where ch: "ch \<in> set (array_from input)" "keep_char ch" "u \<in> set ch"
    by (auto simp: filterNonEmoji_def join_empty_def)
  from ch(1) consider a where "ch = [a]"
    | a b where "ch = [a, b]" "is_leading_surrogate a" "is_trailing_surrogate b"
    using array_from_shape by blast
  then show ?thesis
  proof cases
    case 1
    with ch show ?thesis by (simp add: keep_char_excluded nullish_def)
  next
    case 2
    with ch(3) show ?thesis using surrogate_not_excluded by auto
  qed
qed

lemma filter_keeps_allowed:
  assumes "\<forall>u\<in>set ys. \<not> spec_excluded (unat u)"
  shows "filterNonEmoji ys = ys"
proof -
  have "keep_char ch" if "ch \<in> set (array_from ys)" for ch
  proof -
    from that have sub: "set ch \<subseteq> set ys"
      using concat_array_from [of ys] by (metis set_concat UN_upper)
    from that consider a where "ch = [a]"
      | a b where "ch = [a, b]" "is_leading_surrogate a" "is_trailing_surrogate b"
      using array_from_shape by blast
    then show ?thesis
    proof cases
      case 1
      with sub assms show ?thesis by (simp add: keep_char_excluded nullish_def)
    next
      case 2
      then show ?thesis by (simp add: keep_char_excluded nullish_def spec_excluded_def)
    qed
  qed
  then have "filter keep_char (array_from ys) = array_from ys" by simp
  then show ?thesis by (simp add: filterNonEmoji_def join_empty_def concat_array_from)
qed

section \<open>Insertion and deletion inside the buffer\<close>

text \<open>
  C1. For every text, every fragment and all offsets with
  \<open>0 \<le> start \<le> end \<le> length text\<close> (in code units), \<open>insertAt\<close> returns the text
  before \<open>start\<close>, then the fragment, then the text from \<open>end\<close> on.
\<close>

theorem insertAt_in_range:
  assumes "0 \<le> start" and "start \<le> stop" and "stop \<le> int (length input)"
  shows "insertAt input ins start stop =
           take (nat start) input @ ins @ drop (nat stop) input"
proof -
  from assms have "0 \<le> stop" by linarith
  with assms(1) show ?thesis
    by (simp add: insertAt_def slice_prefix slice_suffix)
qed

theorem insertAt_in_range_witness:
  "(0::int) \<le> 1 \<and> (1::int) \<le> 2 \<and> (2::int) \<le> int (length [0x61, 0x62, 0x63 :: code_unit]) \<and>
   insertAt [0x61, 0x62, 0x63] [0x2728] 1 2 = [0x61, 0x2728, 0x63]"
  using insertAt_in_range [of 1 2 "[0x61, 0x62, 0x63]" "[0x2728]"] by simp

text \<open>
  C2. Deleting at a caret with nothing selected is to delete exactly one Unicode
  codepoint. At a caret inside a surrogate pair it does not: in the text "ab", U+1F600,
  "cd" with the caret at offset 3, the text is cut between the two halves of the pair
  before it is decomposed, only the leading surrogate U+D83D is removed and the
  trailing surrogate U+DE00 stays behind alone. The text had five codepoints and the
  result has five, none of them U+1F600. The screen reaches such a caret by itself:
  one astral key on the empty buffer and a backspace leave the lone U+DD25.
\<close>

theorem deleteOneGrapheme_splits_pair:
  "deleteOneGrapheme [0x61, 0x62, 0xD83D, 0xDE00, 0x63, 0x64] 3 3 =
     \<lparr> nextText = [0x61, 0x62, 0xDE00, 0x63, 0x64], nextCursor = 2 \<rparr> \<and>
   spec_codepoints [0x61, 0x62, 0xD83D, 0xDE00, 0x63, 0x64] = [0x61, 0x62, 0x1F600, 0x63, 0x64] \<and>
   spec_codepoints [0x61, 0x62, 0xDE00, 0x63, 0x64] = [0x61, 0x62, 0xDE00, 0x63, 0x64] \<and>
   handleBackspace (handleInsert \<lparr> text_value = [], selection_start = 0, selection_end = 0 \<rparr>
      [0xD83D, 0xDD25]) =
     \<lparr> text_value = [0xDD25], selection_start = 0, selection_end = 0 \<rparr>"
  by (simp add: eval_defs)

text \<open>
  X3. For every text and every caret \<open>c\<close> with \<open>0 < c \<le> length text\<close>, deleting with
  nothing selected returns the reassembled codepoints of the slice before the caret
  without the last of them, followed by the text from the caret on; the returned cursor
  is the length, in code units, of that reassembled left part. Here a lone surrogate of
  the slice counts as a codepoint, as the string iterator yields it; the statement is
  about the slice before the caret and not about the codepoints of the whole text.
\<close>

theorem deleteOneGrapheme_caret:
  assumes "0 < c" and "c \<le> int (length input)"
  shows "nextText (deleteOneGrapheme input c c) =
           spec_reassemble (butlast (spec_codepoints (take (nat c) input))) @ drop (nat c) input \<and>
         nextCursor (deleteOneGrapheme input c c) =
           int (length (spec_reassemble (butlast (spec_codepoints (take (nat c) input))))) \<and>
         spec_codepoints (spec_reassemble (butlast (spec_codepoints (take (nat c) input)))) =
           butlast (spec_codepoints (take (nat c) input)) \<and>
         spec_codepoints (take (nat c) input) \<noteq> []"
proof -
  from assms have c0: "0 \<le> c" and nc: "\<not> c \<le> 0" by linarith+
  from assms have "take (nat c) input \<noteq> []" by auto
  then have "spec_codepoints (take (nat c) input) \<noteq> []"
    by (simp add: codepoints_array_from array_from_Nil_iff)
  then show ?thesis
    using c0 nc
    by (simp add: deleteOneGrapheme_def Let_def slice_prefix slice_suffix pop_def join_empty_def
        array_from_array_def reassemble_butlast codepoints_butlast)
qed

theorem deleteOneGrapheme_caret_witness:
  "(0::int) < 4 \<and> (4::int) \<le> int (length [0x61, 0x62, 0xD83D, 0xDE00, 0x63, 0x64 :: code_unit]) \<and>
   spec_codepoints (take (nat 4) [0x61, 0x62, 0xD83D, 0xDE00, 0x63, 0x64]) = [0x61, 0x62, 0x1F600] \<and>
   nextText (deleteOneGrapheme [0x61, 0x62, 0xD83D, 0xDE00, 0x63, 0x64] 4 4) = [0x61, 0x62, 0x63, 0x64] \<and>
   nextCursor (deleteOneGrapheme [0x61, 0x62, 0xD83D, 0xDE00, 0x63, 0x64] 4 4) = 2"
  using deleteOneGrapheme_caret [of 4 "[0x61, 0x62, 0xD83D, 0xDE00, 0x63, 0x64]"]
  by (simp add: eval_defs)

text \<open>
  X4. At a caret \<open>c\<close> with \<open>0 < c \<le> length text\<close> that does not stand directly before
  a trailing surrogate, deleting with nothing selected removes exactly one codepoint of
  the text: the codepoints of the text are those before the caret followed by those
  after it, and the codepoints of the new text are the same without the last one
  before the caret.
\<close>

theorem deleteOneGrapheme_boundary_codepoints:
  assumes "0 < c" and "c \<le> int (length input)" and "\<not> caret_before_trailing input c"
  shows "spec_codepoints input =
           spec_codepoints (take (nat c) input) @ spec_codepoints (drop (nat c) input) \<and>
         spec_codepoints (nextText (deleteOneGrapheme input c c)) =
           butlast (spec_codepoints (take (nat c) input)) @ spec_codepoints (drop (nat c) input) \<and>
         spec_codepoints (take (nat c) input) \<noteq> [] \<and>
         length (spec_codepoints (nextText (deleteOneGrapheme input c c))) + 1 =
           length (spec_codepoints input)"
proof -
  let ?l = "take (nat c) input" and ?r = "drop (nat c) input"
  from assms(3) have r: "case ?r of [] \<Rightarrow> True | v # _ \<Rightarrow> \<not> is_trailing_surrogate v"
    by (simp add: caret_before_trailing_def split: list.splits)
  have "spec_codepoints (?l @ ?r) = spec_codepoints ?l @ spec_codepoints ?r"
    using r by (rule codepoints_append)
  then have A: "spec_codepoints input = spec_codepoints ?l @ spec_codepoints ?r" by simp
  from assms have c0: "0 \<le> c" and nc: "\<not> c \<le> 0" by linarith+
  have nt: "nextText (deleteOneGrapheme input c c) = concat (butlast (array_from ?l)) @ ?r"
    using c0 nc
    by (simp add: deleteOneGrapheme_def Let_def slice_prefix slice_suffix pop_def join_empty_def)
  have B: "spec_codepoints (nextText (deleteOneGrapheme input c c)) =
      butlast (spec_codepoints ?l) @ spec_codepoints ?r"
    unfolding nt using r by (simp only: codepoints_append codepoints_butlast)
  from assms have "?l \<noteq> []" by auto
  then have C: "spec_codepoints ?l \<noteq> []"
    by (simp add: codepoints_array_from array_from_Nil_iff)
  have D: "length (spec_codepoints (nextText (deleteOneGrapheme input c c))) + 1 =
           length (spec_codepoints input)"
    using C by (simp only: A B) (cases "spec_codepoints ?l" rule: rev_cases, simp_all)
  from A B C D show ?thesis by (simp only: simp_thms)
qed

theorem deleteOneGrapheme_boundary_codepoints_witness:
  "(0::int) < 4 \<and> (4::int) \<le> int (length [0x61, 0x62, 0xD83D, 0xDE00, 0x63, 0x64 :: code_unit]) \<and>
   \<not> caret_before_trailing [0x61, 0x62, 0xD83D, 0xDE00, 0x63, 0x64] 4 \<and>
   spec_codepoints [0x61, 0x62, 0xD83D, 0xDE00, 0x63, 0x64] = [0x61, 0x62, 0x1F600, 0x63, 0x64] \<and>
   spec_codepoints (nextText (deleteOneGrapheme [0x61, 0x62, 0xD83D, 0xDE00, 0x63, 0x64] 4 4)) =
     [0x61, 0x62, 0x63, 0x64]"
  using deleteOneGrapheme_boundary_codepoints [of 4 "[0x61, 0x62, 0xD83D, 0xDE00, 0x63, 0x64]"]
  by (simp add: eval_defs caret_before_trailing_def)

text \<open>
  C3. For every text and all offsets with \<open>0 \<le> s < e \<le> length text\<close>, deleting with
  the range \<open>(s, e)\<close> selected returns the text without the slice \<open>[s, e)\<close> and the
  cursor \<open>s\<close>.
\<close>

theorem deleteOneGrapheme_range:
  assumes "0 \<le> s" and "s < e" and "e \<le> int (length input)"
  shows "nextText (deleteOneGrapheme input s e) = take (nat s) input @ drop (nat e) input \<and>
         nextCursor (deleteOneGrapheme input s e) = s"
proof -
  from assms have "s \<noteq> e" and "0 \<le> e" by linarith+
  with assms(1) show ?thesis
    by (simp add: deleteOneGrapheme_def slice_prefix slice_suffix)
qed

theorem deleteOneGrapheme_range_witness:
  "(0::int) \<le> 1 \<and> (1::int) < 3 \<and> (3::int) \<le> int (length [0x61, 0xD83D, 0xDE00, 0x62 :: code_unit]) \<and>
   nextText (deleteOneGrapheme [0x61, 0xD83D, 0xDE00, 0x62] 1 3) = [0x61, 0x62] \<and>
   nextCursor (deleteOneGrapheme [0x61, 0xD83D, 0xDE00, 0x62] 1 3) = 1"
  using deleteOneGrapheme_range [of 1 3 "[0x61, 0xD83D, 0xDE00, 0x62]"] by simp

text \<open>
  C4. With the caret at offset \<open>0\<close> and nothing selected, deleting returns the text
  unchanged and the cursor \<open>0\<close>.
\<close>

theorem deleteOneGrapheme_at_start:
  "deleteOneGrapheme input 0 0 = \<lparr> nextText = input, nextCursor = 0 \<rparr>"
  by (simp add: deleteOneGrapheme_def)

theorem deleteOneGrapheme_at_start_witness:
  "deleteOneGrapheme [0xD83D, 0xDE00] 0 0 = \<lparr> nextText = [0xD83D, 0xDE00], nextCursor = 0 \<rparr>"
  using deleteOneGrapheme_at_start [of "[0xD83D, 0xDE00]"] by simp

section \<open>The input filter\<close>

text \<open>
  C5. For every text, \<open>filterNonEmoji\<close> returns a value (no input makes it fail): the
  reassembly, in their original order, of exactly those codepoints of the text that
  are not ASCII digits, not ASCII letters, not in U+AC00 to U+D7A3 and not in U+1100 to
  U+11FF.
\<close>

theorem filterNonEmoji_codepoints:
  "filterNonEmoji input =
     spec_reassemble (filter (\<lambda>cp. \<not> spec_excluded cp) (spec_codepoints input))"
proof -
  let ?cp = "\<lambda>ch. nullish (codePointAt0 ch) 0"
  have "filter (\<lambda>cp. \<not> spec_excluded cp) (spec_codepoints input) =
          map ?cp (filter keep_char (array_from input))"
  proof -
    have "keep_char = (\<lambda>ch. \<not> spec_excluded (?cp ch))"
      by (rule ext) (rule keep_char_excluded)
    then show ?thesis
      by (simp add: codepoints_array_from filter_map o_def)
  qed
  moreover have "map spec_encode (map ?cp (filter keep_char (array_from input))) =
          filter keep_char (array_from input)"
    unfolding map_map by (rule map_idI) (auto intro: encode_code_point)
  ultimately show ?thesis
    by (simp only: spec_reassemble_def filterNonEmoji_def join_empty_def)
qed

theorem filterNonEmoji_codepoints_witness:
  "filterNonEmoji [0xC548, 0xB155, 0x31, 0x32, 0x33] = [] \<and>
   spec_codepoints [0xC548, 0xB155, 0x31, 0x32, 0x33] = [0xC548, 0xB155, 0x31, 0x32, 0x33] \<and>
   filterNonEmoji [0xD83D, 0xDE00, 0x61, 0x62, 0x63] = [0xD83D, 0xDE00]"
  using filterNonEmoji_codepoints [of "[0xC548, 0xB155, 0x31, 0x32, 0x33]"]
    filterNonEmoji_codepoints [of "[0xD83D, 0xDE00, 0x61, 0x62, 0x63]"]
  by (simp add: eval_defs)

text \<open>
  C6. The filter is idempotent: filtering a filtered text changes nothing.
\<close>

theorem filterNonEmoji_idempotent:
  "filterNonEmoji (filterNonEmoji input) = filterNonEmoji input"
  by (rule filter_keeps_allowed) (simp add: filter_units_allowed)

theorem filterNonEmoji_idempotent_witness:
  "filterNonEmoji (filterNonEmoji [0xD83D, 0x61, 0xDE00, 0x2728, 0x39]) = [0xD83D, 0xDE00, 0x2728]"
  using filterNonEmoji_idempotent [of "[0xD83D, 0x61, 0xDE00, 0x2728, 0x39]"]
  by (simp add: eval_defs)

text \<open>
  X1. On a text without lone surrogates (every codepoint a Unicode scalar value) the
  output of the filter, read as codepoints again, is the list of the surviving
  codepoints.
\<close>

theorem filterNonEmoji_scalar_codepoints:
  assumes "\<forall>cp\<in>set (spec_codepoints input). cp < 0xD800 \<or> 0xDFFF < cp"
  shows "spec_codepoints (filterNonEmoji input) =
           filter (\<lambda>cp. \<not> spec_excluded cp) (spec_codepoints input)"
proof -
  let ?cp = "\<lambda>ch. nullish (codePointAt0 ch) 0"
  have shape: "(\<exists>u v. ch = [u, v] \<and> is_leading_surrogate u \<and> is_trailing_surrogate v) \<or>
            (\<exists>u. ch = [u] \<and> \<not> is_leading_surrogate u)"
    if "ch \<in> set (array_from input)" for ch
  proof -
    from that consider u where "ch = [u]"
      | u v where "ch = [u, v]" "is_leading_surrogate u" "is_trailing_surrogate v"
      using array_from_shape by blast
    then show ?thesis
    proof cases
      case 1
      with that have "unat u \<in> set (spec_codepoints input)"
        by (force simp: codepoints_array_from nullish_def)
      with assms have "unat u < 0xD800 \<or> 0xDFFF < unat u" by blast
      with 1 show ?thesis by (auto simp: is_leading_surrogate_def)
    next
      case 2
      then show ?thesis by blast
    qed
  qed
  then have "array_from (concat (filter keep_char (array_from input))) =
      filter keep_char (array_from input)"
    by (intro array_from_concat_chunks) auto
  moreover have "keep_char = (\<lambda>ch. \<not> spec_excluded (?cp ch))"
    by (rule ext) (rule keep_char_excluded)
  ultimately show ?thesis
    by (simp add: filterNonEmoji_def join_empty_def
        codepoints_array_from [of "concat (filter keep_char (array_from input))"]
        codepoints_array_from [of input] filter_map o_def)
qed

theorem filterNonEmoji_scalar_codepoints_witness:
  "spec_codepoints (filterNonEmoji [0xD83D, 0xDE00, 0x61, 0x62, 0x63]) = [0x1F600]"
  using filterNonEmoji_scalar_codepoints [of "[0xD83D, 0xDE00, 0x61, 0x62, 0x63]"]
  by (simp add: eval_defs)

text \<open>
  X2. On a text with lone surrogates the filter can bring a leading and a trailing
  surrogate together: the survivors U+D83D and U+DE00 of the three codepoints of the
  text below are reassembled into a string that reads as the one codepoint U+1F600.
\<close>

theorem filterNonEmoji_joins_lone_surrogates:
  "spec_codepoints [0xD83D, 0x61, 0xDE00] = [0xD83D, 0x61, 0xDE00] \<and>
   filterNonEmoji [0xD83D, 0x61, 0xDE00] = [0xD83D, 0xDE00] \<and>
   spec_codepoints (filterNonEmoji [0xD83D, 0x61, 0xDE00]) = [0x1F600]"
  by (simp add: eval_defs)

section \<open>The caret after an edit\<close>

text \<open>
  C7. The scenario of the specification: the text is "ab", U+1F600, "cd", the caret
  stands after "ab" (offset 2) and U+1F525 is inserted. The new text is as the
  specification says, but the new caret is 3: the handler adds the number of codepoints
  of the fragment (1) to an offset that \<open>slice\<close> and the deletion path count in code
  units (the fragment has 2). Offset 3 lies inside the surrogate pair just inserted, and
  a backspace from there leaves the lone trailing surrogate U+DD25 in the text.
\<close>

theorem handleInsert_scenario_caret:
  "handleInsert \<lparr> text_value = [0x61, 0x62, 0xD83D, 0xDE00, 0x63, 0x64],
      selection_start = 2, selection_end = 2 \<rparr> [0xD83D, 0xDD25] =
   \<lparr> text_value = [0x61, 0x62, 0xD83D, 0xDD25, 0xD83D, 0xDE00, 0x63, 0x64],
      selection_start = 3, selection_end = 3 \<rparr> \<and>
   length [0xD83D, 0xDD25 :: code_unit] = 2 \<and>
   handleBackspace \<lparr> text_value = [0x61, 0x62, 0xD83D, 0xDD25, 0xD83D, 0xDE00, 0x63, 0x64],
      selection_start = 3, selection_end = 3 \<rparr> =
   \<lparr> text_value = [0x61, 0x62, 0xDD25, 0xD83D, 0xDE00, 0x63, 0x64],
      selection_start = 2, selection_end = 2 \<rparr>"
  by (simp add: eval_defs)

text \<open>
  C8. From a selection with \<open>0 \<le> s \<le> e \<le> length text\<close>, the cursor that deletion
  returns lies within the bounds of the text it returns, and so does the caret that
  the insertion handler sets, for any fragment, within the text it sets.
\<close>

theorem edits_keep_caret_in_bounds:
  assumes "0 \<le> s" and "s \<le> e" and "e \<le> int (length input)"
  shows "0 \<le> nextCursor (deleteOneGrapheme input s e) \<and>
         nextCursor (deleteOneGrapheme input s e) \<le>
           int (length (nextText (deleteOneGrapheme input s e))) \<and>
         0 \<le> selection_start (handleInsert
                \<lparr> text_value = input, selection_start = s, selection_end = e \<rparr> emoji) \<and>
         selection_start (handleInsert
                \<lparr> text_value = input, selection_start = s, selection_end = e \<rparr> emoji)
           \<le> int (length (text_value (handleInsert
                \<lparr> text_value = input, selection_start = s, selection_end = e \<rparr> emoji))) \<and>
         selection_end (handleInsert
                \<lparr> text_value = input, selection_start = s, selection_end = e \<rparr> emoji) =
           selection_start (handleInsert
                \<lparr> text_value = input, selection_start = s, selection_end = e \<rparr> emoji)"
proof -
  let ?st = "\<lparr> text_value = input, selection_start = s, selection_end = e \<rparr>"
  from assms have e0: "0 \<le> e" by linarith
  have del: "0 \<le> nextCursor (deleteOneGrapheme input s e) \<and>
         nextCursor (deleteOneGrapheme input s e) \<le>
           int (length (nextText (deleteOneGrapheme input s e)))"
    using assms e0
    by (auto simp: deleteOneGrapheme_def Let_def slice_prefix slice_suffix join_empty_def
        array_from_array_def)
  have ins: "selection_start (handleInsert ?st emoji) = s + int (length (array_from emoji))"
    "selection_end (handleInsert ?st emoji) = s + int (length (array_from emoji))"
    "text_value (handleInsert ?st emoji) = take (nat s) input @ emoji @ drop (nat e) input"
    using assms e0
    by (simp_all add: handleInsert_def Let_def insertAt_def slice_prefix slice_suffix)
  have "s + int (length (array_from emoji))
      \<le> int (length (take (nat s) input @ emoji @ drop (nat e) input))"
    using assms length_array_from [of emoji] by simp
  with del ins assms(1) show ?thesis by simp
qed

theorem edits_keep_caret_in_bounds_witness:
  "(0::int) \<le> 2 \<and> (2::int) \<le> 2 \<and>
   (2::int) \<le> int (length [0x61, 0x62, 0xD83D, 0xDE00, 0x63, 0x64 :: code_unit]) \<and>
   nextCursor (deleteOneGrapheme [0x61, 0x62, 0xD83D, 0xDE00, 0x63, 0x64] 2 2) = 1 \<and>
   length (nextText (deleteOneGrapheme [0x61, 0x62, 0xD83D, 0xDE00, 0x63, 0x64] 2 2)) = 5 \<and>
   selection_start (handleInsert \<lparr> text_value = [0x61, 0x62, 0xD83D, 0xDE00, 0x63, 0x64],
      selection_start = 2, selection_end = 2 \<rparr> [0xD83D, 0xDD25]) = 3"
  using edits_keep_caret_in_bounds
    [of 2 2 "[0x61, 0x62, 0xD83D, 0xDE00, 0x63, 0x64]" "[0xD83D, 0xDD25]"]
  by (simp add: eval_defs)

text \<open>
  C10. The two paths move the caret in different units. Inserting a fragment that
  holds a codepoint beyond the BMP advances the caret by the number of codepoints of
  the fragment, which is strictly less than its length in code units; deleting at a
  caret \<open>c\<close> with \<open>0 < c \<le> length text\<close> moves the cursor back by the length in code
  units of the codepoint it removes.
\<close>

theorem caret_units_differ:
  assumes "\<exists>cp\<in>set (spec_codepoints emoji). 0x10000 \<le> cp"
    and "0 < c" and "c \<le> int (length input)"
  shows "selection_start (handleInsert st emoji) =
           selection_start st + int (length (spec_codepoints emoji)) \<and>
         selection_start (handleInsert st emoji) < selection_start st + int (length emoji) \<and>
         nextCursor (deleteOneGrapheme input c c) =
           c - int (length (spec_encode (last (spec_codepoints (take (nat c) input)))))"
proof -
  have A: "selection_start (handleInsert st emoji) =
           selection_start st + int (length (spec_codepoints emoji))"
    by (simp add: handleInsert_def Let_def length_codepoints)
  have B: "selection_start (handleInsert st emoji) < selection_start st + int (length emoji)"
    using astral_shorter [OF assms(1)] by (simp add: handleInsert_def Let_def)
  let ?left = "take (nat c) input"
  from assms have ne: "?left \<noteq> []" by auto
  then have cps: "spec_codepoints ?left \<noteq> []"
    by (simp add: codepoints_array_from array_from_Nil_iff)
  have "last (array_from ?left) = spec_encode (last (spec_codepoints ?left))"
    using cps by (simp add: map_encode_codepoints [symmetric] last_map)
  moreover have "length (concat (butlast (array_from ?left))) + length (last (array_from ?left))
      = length ?left"
    using concat_butlast_array_from [OF ne] by (metis length_append)
  moreover have "int (length ?left) = c" using assms by simp
  ultimately have "int (length (concat (butlast (array_from ?left)))) =
      c - int (length (spec_encode (last (spec_codepoints ?left))))"
    by simp
  moreover from assms have "0 \<le> c" "\<not> c \<le> 0" by linarith+
  ultimately have C: "nextCursor (deleteOneGrapheme input c c) =
           c - int (length (spec_encode (last (spec_codepoints ?left))))"
    by (simp add: deleteOneGrapheme_def Let_def slice_prefix slice_suffix pop_def join_empty_def
        array_from_array_def)
  from A B C show ?thesis by (simp only: simp_thms)
qed

theorem caret_units_differ_witness:
  "(\<exists>cp\<in>set (spec_codepoints [0xD83D, 0xDD25]). 0x10000 \<le> cp) \<and> (0::int) < 4 \<and>
   (4::int) \<le> int (length [0x61, 0x62, 0xD83D, 0xDD25 :: code_unit]) \<and>
   selection_start (handleInsert \<lparr> text_value = [0x61, 0x62], selection_start = 2, selection_end = 2 \<rparr>
      [0xD83D, 0xDD25]) = 3 \<and>
   (3::int) < 2 + int (length [0xD83D, 0xDD25 :: code_unit]) \<and>
   nextCursor (deleteOneGrapheme [0x61, 0x62, 0xD83D, 0xDD25] 4 4) = 2"
  using caret_units_differ [of "[0xD83D, 0xDD25]" 4 "[0x61, 0x62, 0xD83D, 0xDD25]"
      "\<lparr> text_value = [0x61, 0x62], selection_start = 2, selection_end = 2 \<rparr>"]
  by (simp add: eval_defs)

section \<open>Offsets outside the buffer\<close>

text \<open>
  C9 as stated fails. Neither function clamps: a negative offset reaches \<open>slice\<close>, which
  counts it back from the end of the text, so inserting at \<open>(-1, -1)\<close> into "abc" puts
  the fragment before the "c" and not at the front; deleting with the range \<open>(5, 7)\<close>
  selected in "abc" returns the text unchanged with the cursor 5, where the clamped
  selection \<open>(3, 3)\<close> deletes the "c" and returns the cursor 2; and deleting at the
  caret \<open>-1\<close> returns the cursor \<open>-1\<close>.
\<close>

theorem offsets_not_clamped:
  "insertAt [0x61, 0x62, 0x63] [0x2728] (- 1) (- 1) \<noteq>
     insertAt [0x61, 0x62, 0x63] [0x2728] (spec_clamp 3 (- 1)) (spec_clamp 3 (- 1)) \<and>
   deleteOneGrapheme [0x61, 0x62, 0x63] 5 7 \<noteq>
     deleteOneGrapheme [0x61, 0x62, 0x63] (spec_clamp 3 5) (spec_clamp 3 7) \<and>
   deleteOneGrapheme [0x61, 0x62, 0x63] (- 1) (- 1) \<noteq>
     deleteOneGrapheme [0x61, 0x62, 0x63] (spec_clamp 3 (- 1)) (spec_clamp 3 (- 1))"
  by (simp add: eval_defs)

text \<open>
  C9, amended. Both functions return a value for all integer offsets. For offsets
  that are not negative, an offset beyond the text acts as the length of the text:
  \<open>insertAt\<close> returns what it returns on the clamped offsets, deleting at a caret
  (\<open>start = end\<close>) returns what it returns on the clamped caret, and deleting a selected
  range (\<open>start \<noteq> end\<close>) removes the slice between the clamped offsets and returns the
  cursor \<open>start\<close> as it was given.
\<close>

theorem offsets_beyond_length:
  assumes "0 \<le> s" and "0 \<le> e"
  shows "insertAt input ins s e =
           insertAt input ins (spec_clamp (length input) s) (spec_clamp (length input) e) \<and>
         deleteOneGrapheme input s s =
           deleteOneGrapheme input (spec_clamp (length input) s) (spec_clamp (length input) s) \<and>
         (s \<noteq> e \<longrightarrow>
            nextText (deleteOneGrapheme input s e) =
              take (nat (spec_clamp (length input) s)) input @
              drop (nat (spec_clamp (length input) e)) input \<and>
            nextCursor (deleteOneGrapheme input s e) = s)"
proof -
  let ?n = "length input"
  have A: "insertAt input ins s e = insertAt input ins (spec_clamp ?n s) (spec_clamp ?n e)"
    using assms
    by (simp add: insertAt_def slice_prefix slice_suffix clamp_nonneg slice_prefix_clamp
        slice_suffix_clamp)
  have B: "deleteOneGrapheme input s s =
      deleteOneGrapheme input (spec_clamp ?n s) (spec_clamp ?n s)"
  proof (cases "s = 0")
    case True
    then show ?thesis by (simp add: spec_clamp_def)
  next
    case False
    with assms have sp: "0 < s" by simp
    show ?thesis
    proof (cases "input = []")
      case True
      with sp show ?thesis
        by (simp add: deleteOneGrapheme_def Let_def spec_clamp_def string_slice_def pop_def
            join_empty_def array_from_array_def)
    next
      case False
      with sp have "0 < spec_clamp ?n s" by (simp add: clamp_pos)
      with sp assms show ?thesis
        by (simp add: deleteOneGrapheme_def Let_def slice_prefix slice_suffix clamp_nonneg
            slice_prefix_clamp slice_suffix_clamp)
    qed
  qed
  have C: "s \<noteq> e \<longrightarrow>
            nextText (deleteOneGrapheme input s e) =
              take (nat (spec_clamp ?n s)) input @ drop (nat (spec_clamp ?n e)) input \<and>
            nextCursor (deleteOneGrapheme input s e) = s"
    using assms
    by (simp add: deleteOneGrapheme_def slice_prefix slice_suffix slice_prefix_clamp
        slice_suffix_clamp)
  from A B C show ?thesis by (simp only: simp_thms)
qed

theorem offsets_beyond_length_witness:
  "(0::int) \<le> 5 \<and> (0::int) \<le> 7 \<and>
   insertAt [0x61, 0x62, 0x63] [0x2728] 5 7 = [0x61, 0x62, 0x63, 0x2728] \<and>
   insertAt [0x61, 0x62, 0x63] [0x2728] (spec_clamp 3 5) (spec_clamp 3 7) =
     [0x61, 0x62, 0x63, 0x2728] \<and>
   deleteOneGrapheme [0x61, 0x62, 0x63] 5 5 = \<lparr> nextText = [0x61, 0x62], nextCursor = 2 \<rparr> \<and>
   deleteOneGrapheme [0x61, 0x62, 0x63] (spec_clamp 3 5) (spec_clamp 3 5) =
     \<lparr> nextText = [0x61, 0x62], nextCursor = 2 \<rparr> \<and>
   (5::int) \<noteq> 7 \<and>
   nextText (deleteOneGrapheme [0x61, 0x62, 0x63] 5 7) = [0x61, 0x62, 0x63] \<and>
   nextCursor (deleteOneGrapheme [0x61, 0x62, 0x63] 5 7) = 5"
  using offsets_beyond_length [of 5 7 "[0x61, 0x62, 0x63]" "[0x2728]"]
  by (simp add: eval_defs)

end
